theory Spec2Isabelle
  imports Complex_Main "HOL-Library.Word"
begin

section \<open>The camera of \<^verbatim>\<open>src/camera.c\<close>\<close>

text \<open>
  The C \<^verbatim>\<open>float\<close> fields of the camera are modelled as \<^typ>\<open>real\<close>: finite values with
  the usual total order (no NaN, no infinities). The arithmetic of the bounds check,
  \<^verbatim>\<open>bounds.x - bounds.w\<close> and \<^verbatim>\<open>bounds.z + bounds.h\<close>, is the code's float arithmetic:
  the exact result, rounded to a float by a rounding that is a parameter of the model.
  The remaining arithmetic (the distance of a move, the updates of yaw and pitch) is exact.
  \<^verbatim>\<open>uint32_t\<close> is \<^typ>\<open>32 word\<close>, whose subtraction wraps as in C; a C \<^verbatim>\<open>int\<close> is a
  signed \<^typ>\<open>32 word\<close> read with \<^const>\<open>sint\<close>.
\<close>

subsection \<open>Data\<close>

text \<open>\<^verbatim>\<open>vec3_t\<close>: the components \<^verbatim>\<open>x\<close>, \<^verbatim>\<open>y\<close>, \<^verbatim>\<open>z\<close>.\<close>

record vec3 =
  vx :: real
  vy :: real
  vz :: real

text \<open>
  \<^verbatim>\<open>struct bound_box\<close> is declared in \<^verbatim>\<open>collision.h\<close>; \<^verbatim>\<open>camera.c\<close> reads its fields
  \<^verbatim>\<open>x\<close>, \<^verbatim>\<open>z\<close>, \<^verbatim>\<open>w\<close> and \<^verbatim>\<open>h\<close>.
\<close>

record bound_box =
  bx :: real
  bz :: real
  bw :: real
  bh :: real

text \<open>\<^verbatim>\<open>struct camera\<close>, field by field.\<close>

record camera =
  speed :: real
  sensitivity :: real
  pos :: vec3
  front :: vec3
  up :: vec3
  pitch :: real
  yaw :: real
  prev_frame_ts :: "32 word"
  bounded :: bool
  bounds :: bound_box

text \<open>
  The vector helpers \<^verbatim>\<open>PFM_Vec3_Cross\<close>, \<^verbatim>\<open>PFM_Vec3_Normal\<close>, \<^verbatim>\<open>PFM_Vec3_Scale\<close>,
  \<^verbatim>\<open>PFM_Vec3_Add\<close>, \<^verbatim>\<open>PFM_Vec3_Sub\<close> and the macro \<^verbatim>\<open>DEG_TO_RAD\<close> belong to the
  engine's math library, whose source is not part of \<^verbatim>\<open>camera.c\<close>. The camera functions
  take them as a parameter, so every theorem below holds for any implementation of them.
  \<open>float_round\<close> is the rounding of the platform's \<^verbatim>\<open>float\<close> arithmetic: it maps the exact
  result of an operation to the float the operation returns.
\<close>

record pf_math =
  PFM_Vec3_Cross :: "vec3 \<Rightarrow> vec3 \<Rightarrow> vec3"
  PFM_Vec3_Normal :: "vec3 \<Rightarrow> vec3"
  PFM_Vec3_Scale :: "vec3 \<Rightarrow> real \<Rightarrow> vec3"
  PFM_Vec3_Add :: "vec3 \<Rightarrow> vec3 \<Rightarrow> vec3"
  PFM_Vec3_Sub :: "vec3 \<Rightarrow> vec3 \<Rightarrow> vec3"
  DEG_TO_RAD :: "real \<Rightarrow> real"
  float_round :: "real \<Rightarrow> real"

text \<open>
  The float subtraction and addition of C, as \<^verbatim>\<open>camera.c\<close> applies them to two \<^verbatim>\<open>float\<close>
  fields: the exact difference or sum, rounded.
\<close>

definition float_sub :: "pf_math \<Rightarrow> real \<Rightarrow> real \<Rightarrow> real" where
  "float_sub M a b = float_round M (a - b)"

definition float_add :: "pf_math \<Rightarrow> real \<Rightarrow> real \<Rightarrow> real" where
  "float_add M a b = float_round M (a + b)"

text \<open>A failed \<^verbatim>\<open>assert\<close> aborts the program: the one error of the model.\<close>

datatype error = AssertionFailed

subsection \<open>Static functions\<close>

text \<open>The macros \<^verbatim>\<open>MIN\<close> and \<^verbatim>\<open>MAX\<close>, as they expand.\<close>

definition MIN_macro :: "real \<Rightarrow> real \<Rightarrow> real" where
  "MIN_macro a b = (if a < b then a else b)"

definition MAX_macro :: "real \<Rightarrow> real \<Rightarrow> real" where
  "MAX_macro a b = (if a > b then a else b)"

definition camera_pos_in_bounds :: "pf_math \<Rightarrow> camera \<Rightarrow> bool" where
  "camera_pos_in_bounds M cam =
     ((vx (pos cam) \<le> bx (bounds cam)
       \<and> vx (pos cam) \<ge> float_sub M (bx (bounds cam)) (bw (bounds cam)))
      \<and> (vz (pos cam) \<ge> bz (bounds cam)
         \<and> vz (pos cam) \<le> float_add M (bz (bounds cam)) (bh (bounds cam))))"

text \<open>The four assignments of \<^verbatim>\<open>camera_move_within_bounds\<close>, in the order of the source.\<close>

definition camera_move_within_bounds :: "pf_math \<Rightarrow> camera \<Rightarrow> camera" where
  "camera_move_within_bounds M cam =
     (let cam1 = cam\<lparr>pos := (pos cam)\<lparr>vx := MIN_macro (vx (pos cam)) (bx (bounds cam))\<rparr>\<rparr>;
          cam2 = cam1\<lparr>pos := (pos cam1)\<lparr>vx :=
                   MAX_macro (vx (pos cam1)) (float_sub M (bx (bounds cam1)) (bw (bounds cam1)))\<rparr>\<rparr>;
          cam3 = cam2\<lparr>pos := (pos cam2)\<lparr>vz := MAX_macro (vz (pos cam2)) (bz (bounds cam2))\<rparr>\<rparr>;
          cam4 = cam3\<lparr>pos := (pos cam3)\<lparr>vz :=
                   MIN_macro (vz (pos cam3)) (float_add M (bz (bounds cam3)) (bh (bounds cam3)))\<rparr>\<rparr>
      in cam4)"

text \<open>
  The last two statements of every move tick:
  \<^verbatim>\<open>if(cam->bounded) camera_move_within_bounds(cam);\<close> and
  \<^verbatim>\<open>assert(!cam->bounded || camera_pos_in_bounds(cam));\<close>.
\<close>

definition assert_bounds :: "pf_math \<Rightarrow> camera \<Rightarrow> error + camera" where
  "assert_bounds M cam =
     (if bounded cam then (if camera_pos_in_bounds M cam then Inr cam else Inl AssertionFailed)
      else Inr cam)"

definition clamp_and_assert :: "pf_math \<Rightarrow> camera \<Rightarrow> error + camera" where
  "clamp_and_assert M cam =
     assert_bounds M (if bounded cam then camera_move_within_bounds M cam else cam)"

subsection \<open>Extern functions\<close>

definition Camera_SetPos :: "pf_math \<Rightarrow> camera \<Rightarrow> vec3 \<Rightarrow> error + camera" where
  "Camera_SetPos M cam p = assert_bounds M (cam\<lparr>pos := p\<rparr>)"

text \<open>
  The direction update shared, line for line, by \<^verbatim>\<open>Camera_SetPitchAndYaw\<close> and
  \<^verbatim>\<open>Camera_ChangeDirection\<close>: \<^verbatim>\<open>front\<close> from yaw and pitch, then \<^verbatim>\<open>up\<close> from \<^verbatim>\<open>front\<close>.
\<close>

definition update_front_up :: "pf_math \<Rightarrow> camera \<Rightarrow> camera" where
  "update_front_up M cam =
     (let f = \<lparr>vx = cos (DEG_TO_RAD M (yaw cam)) * cos (DEG_TO_RAD M (pitch cam)),
               vy = sin (DEG_TO_RAD M (pitch cam)),
               vz = sin (DEG_TO_RAD M (yaw cam)) * cos (DEG_TO_RAD M (pitch cam)) * (- 1)\<rparr>;
          cam1 = cam\<lparr>front := PFM_Vec3_Normal M f\<rparr>;
          xz = \<lparr>vx = vz (front cam1), vy = 0, vz = - vx (front cam1)\<rparr>;
          cam2 = cam1\<lparr>up := PFM_Vec3_Cross M (front cam1) xz\<rparr>
      in cam2\<lparr>up := PFM_Vec3_Normal M (up cam2)\<rparr>)"

definition Camera_SetPitchAndYaw :: "pf_math \<Rightarrow> camera \<Rightarrow> real \<Rightarrow> real \<Rightarrow> camera" where
  "Camera_SetPitchAndYaw M cam p yw = update_front_up M (cam\<lparr>pitch := p, yaw := yw\<rparr>)"

definition Camera_SetSpeed :: "camera \<Rightarrow> real \<Rightarrow> camera" where
  "Camera_SetSpeed cam s = cam\<lparr>speed := s\<rparr>"

definition Camera_SetSens :: "camera \<Rightarrow> real \<Rightarrow> camera" where
  "Camera_SetSens cam s = cam\<lparr>sensitivity := s\<rparr>"

text \<open>
  The opening of every move tick. \<^verbatim>\<open>SDL_GetTicks\<close> is the clock of the platform: \<open>t0\<close> is
  what it returns to the call made when \<^verbatim>\<open>prev_frame_ts\<close> is zero.
\<close>

definition init_prev_frame_ts :: "32 word \<Rightarrow> camera \<Rightarrow> camera" where
  "init_prev_frame_ts t0 cam =
     (if prev_frame_ts cam = 0 then cam\<lparr>prev_frame_ts := t0\<rparr> else cam)"

text \<open>
  \<^verbatim>\<open>tdelta * cam->speed\<close>: the unsigned difference \<^verbatim>\<open>curr - cam->prev_frame_ts\<close>, converted
  to \<^verbatim>\<open>float\<close>, times the speed. \<open>t1\<close> is the reading of the clock at
  \<^verbatim>\<open>uint32_t curr = SDL_GetTicks();\<close>.
\<close>

definition tick_dist :: "32 word \<Rightarrow> camera \<Rightarrow> real" where
  "tick_dist t1 cam = real (unat (t1 - prev_frame_ts cam)) * speed cam"

definition Camera_MoveLeftTick :: "pf_math \<Rightarrow> 32 word \<Rightarrow> 32 word \<Rightarrow> camera \<Rightarrow> error + camera" where
  "Camera_MoveLeftTick M t0 t1 cam0 =
     (let cam = init_prev_frame_ts t0 cam0;
          right = PFM_Vec3_Cross M (front cam) (up cam);
          right = PFM_Vec3_Normal M right;
          vdelta = PFM_Vec3_Scale M right (tick_dist t1 cam)
      in clamp_and_assert M (cam\<lparr>pos := PFM_Vec3_Add M (pos cam) vdelta\<rparr>))"

definition Camera_MoveRightTick :: "pf_math \<Rightarrow> 32 word \<Rightarrow> 32 word \<Rightarrow> camera \<Rightarrow> error + camera" where
  "Camera_MoveRightTick M t0 t1 cam0 =
     (let cam = init_prev_frame_ts t0 cam0;
          right = PFM_Vec3_Cross M (front cam) (up cam);
          right = PFM_Vec3_Normal M right;
          vdelta = PFM_Vec3_Scale M right (tick_dist t1 cam)
      in clamp_and_assert M (cam\<lparr>pos := PFM_Vec3_Sub M (pos cam) vdelta\<rparr>))"

definition Camera_MoveFrontTick :: "pf_math \<Rightarrow> 32 word \<Rightarrow> 32 word \<Rightarrow> camera \<Rightarrow> error + camera" where
  "Camera_MoveFrontTick M t0 t1 cam0 =
     (let cam = init_prev_frame_ts t0 cam0;
          vdelta = PFM_Vec3_Scale M (front cam) (tick_dist t1 cam)
      in clamp_and_assert M (cam\<lparr>pos := PFM_Vec3_Add M (pos cam) vdelta\<rparr>))"

definition Camera_MoveBackTick :: "pf_math \<Rightarrow> 32 word \<Rightarrow> 32 word \<Rightarrow> camera \<Rightarrow> error + camera" where
  "Camera_MoveBackTick M t0 t1 cam0 =
     (let cam = init_prev_frame_ts t0 cam0;
          vdelta = PFM_Vec3_Scale M (front cam) (tick_dist t1 cam)
      in clamp_and_assert M (cam\<lparr>pos := PFM_Vec3_Sub M (pos cam) vdelta\<rparr>))"

text \<open>\<^verbatim>\<open>sqrt(pow(dir.x,2) + pow(dir.y,2) + pow(dir.z,2))\<close>.\<close>

definition mag :: "vec3 \<Rightarrow> real" where
  "mag dir = sqrt ((vx dir)\<^sup>2 + (vy dir)\<^sup>2 + (vz dir)\<^sup>2)"

definition Camera_MoveDirectionTick ::
    "pf_math \<Rightarrow> 32 word \<Rightarrow> 32 word \<Rightarrow> camera \<Rightarrow> vec3 \<Rightarrow> error + camera" where
  "Camera_MoveDirectionTick M t0 t1 cam0 dir0 =
     (let cam = init_prev_frame_ts t0 cam0 in
      if mag dir0 = 0 then Inr cam
      else
        let dir = PFM_Vec3_Normal M dir0;
            vdelta = PFM_Vec3_Scale M dir (tick_dist t1 cam)
        in clamp_and_assert M (cam\<lparr>pos := PFM_Vec3_Add M (pos cam) vdelta\<rparr>))"

definition Camera_ChangeDirection :: "pf_math \<Rightarrow> camera \<Rightarrow> 32 word \<Rightarrow> 32 word \<Rightarrow> camera" where
  "Camera_ChangeDirection M cam dx dy =
     (let sdx = real_of_int (sint dx) * sensitivity cam;
          sdy = real_of_int (sint dy) * sensitivity cam;
          cam1 = cam\<lparr>yaw := yaw cam + sdx\<rparr>;
          cam2 = cam1\<lparr>pitch := pitch cam1 - sdy\<rparr>;
          cam3 = cam2\<lparr>pitch := (if pitch cam2 < 89 then pitch cam2 else 89)\<rparr>;
          cam4 = cam3\<lparr>pitch := (if pitch cam3 > - 89 then pitch cam3 else - 89)\<rparr>
      in update_front_up M cam4)"

definition Camera_RestrictPosWithBox :: "pf_math \<Rightarrow> camera \<Rightarrow> bound_box \<Rightarrow> error + camera" where
  "Camera_RestrictPosWithBox M cam box =
     assert_bounds M (cam\<lparr>bounded := True, bounds := box\<rparr>)"

definition Camera_UnrestrictPos :: "pf_math \<Rightarrow> camera \<Rightarrow> error + camera" where
  "Camera_UnrestrictPos M cam = assert_bounds M (cam\<lparr>bounded := False\<rparr>)"

text \<open>
  A concrete math library and a concrete camera for the examples: the textbook vector
  operations, and the camera that \<^verbatim>\<open>Camera_New\<close> returns (\<^verbatim>\<open>calloc\<close>: every field zero).
  The rounding of \<open>example_math\<close> leaves every value as it is: that is what a float
  operation does when its exact result is a float, as with the small integers of the
  examples that use it.
\<close>

definition vec3_of :: "real \<Rightarrow> real \<Rightarrow> real \<Rightarrow> vec3" where
  "vec3_of a b c = \<lparr>vx = a, vy = b, vz = c\<rparr>"

definition example_math :: pf_math where
  "example_math =
     \<lparr>PFM_Vec3_Cross = (\<lambda>a b. vec3_of (vy a * vz b - vz a * vy b)
                                       (vz a * vx b - vx a * vz b)
                                       (vx a * vy b - vy a * vx b)),
      PFM_Vec3_Normal = (\<lambda>a. vec3_of (vx a / mag a) (vy a / mag a) (vz a / mag a)),
      PFM_Vec3_Scale = (\<lambda>a s. vec3_of (vx a * s) (vy a * s) (vz a * s)),
      PFM_Vec3_Add = (\<lambda>a b. vec3_of (vx a + vx b) (vy a + vy b) (vz a + vz b)),
      PFM_Vec3_Sub = (\<lambda>a b. vec3_of (vx a - vx b) (vy a - vy b) (vz a - vz b)),
      DEG_TO_RAD = (\<lambda>d. d * pi / 180),
      float_round = (\<lambda>r. r)\<rparr>"

text \<open>
  The same library with a rounding that bites: downwards to the next multiple of 2. The
  binary32 floats between \<open>2^24\<close> and \<open>2^25\<close> are the even integers, and at 16777217,
  halfway between two of them, binary32 returns 16777216 as this rounding does.
\<close>

definition spaced_math :: pf_math where
  "spaced_math = example_math\<lparr>float_round := (\<lambda>r. 2 * real_of_int \<lfloor>r / 2\<rfloor>)\<rparr>"

definition Camera_New :: camera where
  "Camera_New =
     \<lparr>speed = 0, sensitivity = 0, pos = vec3_of 0 0 0, front = vec3_of 0 0 0,
      up = vec3_of 0 0 0, pitch = 0, yaw = 0, prev_frame_ts = 0, bounded = False,
      bounds = \<lparr>bx = 0, bz = 0, bw = 0, bh = 0\<rparr>\<rparr>"

subsection \<open>What the theorems about the camera speak of\<close>

text \<open>
  A call returned (no assertion failed) and left the position inside the box \<open>box\<close>, by
  the code's own check: \<open>box.x - box.w \<le> pos.x \<le> box.x\<close> and
  \<open>box.z \<le> pos.z \<le> box.z + box.h\<close>, the difference and the sum being the floats that
  \<^verbatim>\<open>camera_pos_in_bounds\<close> computes.
\<close>

definition returns_within :: "pf_math \<Rightarrow> error + camera \<Rightarrow> bound_box \<Rightarrow> bool" where
  "returns_within M r box =
     (case r of
        Inl e \<Rightarrow> False
      | Inr cam \<Rightarrow> float_sub M (bx box) (bw box) \<le> vx (pos cam) \<and> vx (pos cam) \<le> bx box
                 \<and> bz box \<le> vz (pos cam) \<and> vz (pos cam) \<le> float_add M (bz box) (bh box))"

text \<open>
  A bounded camera of speed 1 that looks along the negative z axis, with the y axis up,
  and whose position \<open>(5, 0, 5)\<close> lies outside its box \<open>x \<in> [-1, 0]\<close>, \<open>z \<in> [0, 1]\<close>;
  and a camera with a pitch of 400.
\<close>

definition outside_camera :: camera where
  "outside_camera =
     Camera_New\<lparr>speed := 1, pos := vec3_of 5 0 5, front := vec3_of 0 0 (- 1),
                up := vec3_of 0 1 0, bounded := True,
                bounds := \<lparr>bx = 0, bz = 0, bw = 1, bh = 1\<rparr>\<rparr>"

text \<open>
  The same camera far from the origin, in the box \<open>x = 16777218\<close>, \<open>z = 0\<close>, \<open>w = 1\<close>,
  \<open>h = 2\<close>: the exact lower bound \<open>x - w = 16777217\<close> is not a binary32 float.
\<close>

definition far_camera :: camera where
  "far_camera = outside_camera\<lparr>bounds := \<lparr>bx = 16777218, bz = 0, bw = 1, bh = 2\<rparr>\<rparr>"

definition steep_camera :: camera where
  "steep_camera = Camera_SetPitchAndYaw example_math (Camera_SetSens Camera_New 2) 400 0"


section \<open>Navigation: cost grids, portals and the wavefront\<close>

text \<open>
  The navigation code of the engine (cost grids, the portal graph, the flow-field solver)
  is named by the changelog (versions 0.19.0 to 0.24.0) but its source files are missing:
  the sources hold the camera, the animation interface and the changelog. The definitions
  of this section are therefore written from the specification, sections 3, 4.2, 4.3
  and 7.
\<close>

subsection \<open>Cost grids\<close>

text \<open>
  Modelled from the spec: the cell cost of a Cost Grid, which section 3 gives as
  \<open>{1..254, IMPASSABLE}\<close>. The grid's source is missing.
\<close>

datatype cost = Cost nat | IMPASSABLE

text \<open>
  Modelled from the spec: a cell of a grid, the pair of its row and its column. The
  neighbours of a border cell lie outside the grid, so the coordinates are integers.
\<close>

type_synonym cell = "int \<times> int"

text \<open>
  Modelled from the spec: the Cost Grid of section 3, with its chunk id, its dimensions and
  its 2D array of cell costs (a list of rows). The grid's source is missing.
\<close>

record cost_grid =
  chunk_id :: nat
  rows :: nat
  cols :: nat
  cells :: "cost list list"

text \<open>
  Modelled from the spec: whether a cell lies within the dimensions of the grid, and the
  cost stored for it. A read outside the grid or outside the array finds no passable cell.
\<close>

definition in_grid :: "cost_grid \<Rightarrow> cell \<Rightarrow> bool" where
  "in_grid g c = (0 \<le> fst c \<and> fst c < int (rows g) \<and> 0 \<le> snd c \<and> snd c < int (cols g))"

definition cost_at :: "cost_grid \<Rightarrow> cell \<Rightarrow> cost" where
  "cost_at g c =
     (if in_grid g c \<and> nat (fst c) < length (cells g)
         \<and> nat (snd c) < length (cells g ! nat (fst c))
      then cells g ! nat (fst c) ! nat (snd c)
      else IMPASSABLE)"

text \<open>Modelled from the spec: a cost is passable when it is not \<open>IMPASSABLE\<close>; the number
  of a passable cost. \<open>cost_value\<close> is only read for passable cells.\<close>

fun passable_cost :: "cost \<Rightarrow> bool" where
  "passable_cost (Cost n) = True"
| "passable_cost IMPASSABLE = False"

fun cost_value :: "cost \<Rightarrow> nat" where
  "cost_value (Cost n) = n"
| "cost_value IMPASSABLE = 0"

definition passable :: "cost_grid \<Rightarrow> cell \<Rightarrow> bool" where
  "passable g c = passable_cost (cost_at g c)"

subsection \<open>Portals\<close>

text \<open>
  Modelled from the spec: the Portal of section 3, with its endpoint chunk ids, its boundary
  cell range (the first and the last position along the shared boundary) and its crossing
  cost; its width is the length of the range. The portal builder's source is missing.
\<close>

record portal =
  endpoint_a :: nat
  endpoint_b :: nat
  first_cell :: nat
  last_cell :: nat
  crossing_cost :: real

definition portal_width :: "portal \<Rightarrow> nat" where
  "portal_width p = last_cell p - first_cell p + 1"

text \<open>
  Modelled from the spec: the shared boundary of two adjacent chunks is the list of the
  facing cell pairs, a cell of \<open>A\<close> with the cell of \<open>B\<close> across the border, in order along
  the border. Section 6 takes this geometry from the map, so \<open>BuildPortals\<close> receives it
  as \<open>boundary\<close>. \<open>both_passable\<close> says, position by position, whether the boundary is
  passable on both sides (section 4.2).
\<close>

definition both_passable :: "cost_grid \<Rightarrow> cost_grid \<Rightarrow> (cell \<times> cell) list \<Rightarrow> bool list" where
  "both_passable A B boundary = map (\<lambda>(a, b). passable A a \<and> passable B b) boundary"

text \<open>
  Modelled from the spec: the scan of section 4.2 that groups the passable positions into
  contiguous runs. \<open>i\<close> is the position of the scan and the third argument the start of
  the run that is open, if one is. A run is closed at the first position that is not
  passable, or at the end of the boundary.
\<close>

fun scan_runs :: "bool list \<Rightarrow> nat \<Rightarrow> nat option \<Rightarrow> (nat \<times> nat) list" where
  "scan_runs [] i None = []"
| "scan_runs [] i (Some s) = [(s, i - 1)]"
| "scan_runs (p # ps) i None =
     (if p then scan_runs ps (Suc i) (Some i) else scan_runs ps (Suc i) None)"
| "scan_runs (p # ps) i (Some s) =
     (if p then scan_runs ps (Suc i) (Some s) else (s, i - 1) # scan_runs ps (Suc i) None)"

text \<open>
  Modelled from the spec: the crossing cost of a run, the mean of the costs of its boundary
  cells (section 4.2), taken over the cells of both sides.
\<close>

definition run_costs :: "cost_grid \<Rightarrow> cost_grid \<Rightarrow> (cell \<times> cell) list \<Rightarrow> nat \<times> nat \<Rightarrow> nat list" where
  "run_costs A B boundary r =
     concat (map (\<lambda>(a, b). [cost_value (cost_at A a), cost_value (cost_at B b)])
               (take (Suc (snd r) - fst r) (drop (fst r) boundary)))"

definition mean :: "nat list \<Rightarrow> real" where
  "mean xs = real (sum_list xs) / real (length xs)"

text \<open>Modelled from the spec: each run becomes one portal (section 4.2).\<close>

definition make_portal :: "cost_grid \<Rightarrow> cost_grid \<Rightarrow> (cell \<times> cell) list \<Rightarrow> nat \<times> nat \<Rightarrow> portal" where
  "make_portal A B boundary r =
     \<lparr>endpoint_a = chunk_id A, endpoint_b = chunk_id B, first_cell = fst r, last_cell = snd r,
      crossing_cost = mean (run_costs A B boundary r)\<rparr>"

text \<open>Modelled from the spec: \<open>BuildPortals(chunkA, chunkB) -> list<Portal>\<close> of section 4.2.\<close>

definition BuildPortals :: "cost_grid \<Rightarrow> cost_grid \<Rightarrow> (cell \<times> cell) list \<Rightarrow> portal list" where
  "BuildPortals A B boundary =
     map (make_portal A B boundary) (scan_runs (both_passable A B boundary) 0 None)"

text \<open>
  Modelled from the spec: the boundary of two chunks of which \<open>B\<close> lies east of \<open>A\<close>: the last
  column of \<open>A\<close> faces the first column of \<open>B\<close>, row by row.
\<close>

definition east_boundary :: "cost_grid \<Rightarrow> cost_grid \<Rightarrow> (cell \<times> cell) list" where
  "east_boundary A B =
     map (\<lambda>r. ((int r, int (cols A) - 1), (int r, 0))) [0..<min (rows A) (rows B)]"

text \<open>
  Modelled from the spec: what section 4.2 calls a maximal contiguous run, stated by
  positions and independently of the scan. \<open>maximal_run bs lo hi\<close> says that the
  positions \<open>lo\<close> to \<open>hi\<close> of the boundary \<open>bs\<close> are all passable and that the run can be
  extended neither to the left nor to the right. \<open>portal_range\<close> is the boundary cell
  range of a portal.
\<close>

definition portal_range :: "portal \<Rightarrow> nat \<times> nat" where
  "portal_range p = (first_cell p, last_cell p)"

definition maximal_run :: "bool list \<Rightarrow> nat \<Rightarrow> nat \<Rightarrow> bool" where
  "maximal_run bs lo hi =
     (lo \<le> hi \<and> hi < length bs \<and> (\<forall>j. lo \<le> j \<and> j \<le> hi \<longrightarrow> bs ! j)
      \<and> (lo = 0 \<or> \<not> bs ! (lo - 1)) \<and> (Suc hi = length bs \<or> \<not> bs ! Suc hi))"

text \<open>
  The invariant of the scan, for the proof: \<open>pre\<close> is the part of the boundary already
  read, and \<open>runs_from bs i st\<close> are the runs of \<open>bs\<close> the scan has yet to report.
\<close>

definition scan_state_ok :: "bool list \<Rightarrow> nat option \<Rightarrow> bool" where
  "scan_state_ok pre st =
     (case st of
        None \<Rightarrow> pre = [] \<or> \<not> last pre
      | Some s \<Rightarrow> s < length pre \<and> (\<forall>j. s \<le> j \<and> j < length pre \<longrightarrow> pre ! j)
                  \<and> (s = 0 \<or> \<not> pre ! (s - 1)))"

definition runs_from :: "bool list \<Rightarrow> nat \<Rightarrow> nat option \<Rightarrow> (nat \<times> nat) set" where
  "runs_from bs i st =
     {(lo, hi). maximal_run bs lo hi \<and> (case st of None \<Rightarrow> i \<le> lo | Some s \<Rightarrow> i \<le> Suc hi)}"

text \<open>
  The scenario of section 8: two adjacent 4x4 chunks. Along their border the rows 0, 2
  and 3 are passable on both sides and row 1 is blocked on the western side: two separate
  runs, of length 1 and of length 2.
\<close>

definition chunk_west :: cost_grid where
  "chunk_west =
     \<lparr>chunk_id = 0, rows = 4, cols = 4,
      cells = [[Cost 1, Cost 1, Cost 1, Cost 1],
               [Cost 1, Cost 1, Cost 1, IMPASSABLE],
               [Cost 1, Cost 1, Cost 1, Cost 2],
               [Cost 1, Cost 1, Cost 1, Cost 1]]\<rparr>"

definition chunk_east :: cost_grid where
  "chunk_east =
     \<lparr>chunk_id = 1, rows = 4, cols = 4,
      cells = [[Cost 1, Cost 1, Cost 1, Cost 1],
               [Cost 1, Cost 1, Cost 1, Cost 1],
               [Cost 4, Cost 1, Cost 1, Cost 1],
               [Cost 1, Cost 1, Cost 1, Cost 1]]\<rparr>"

subsection \<open>The wavefront of the flow-field solver\<close>

text \<open>
  Modelled from the spec: the cells of a grid in a fixed order, row by row, and the up to
  eight neighbours of a cell in a fixed enumeration order (section 4.3): north, east,
  south, west, then the four diagonals. The solver's source is missing.
\<close>

definition cells_of :: "cost_grid \<Rightarrow> cell list" where
  "cells_of g = concat (map (\<lambda>r. map (\<lambda>c. (int r, int c)) [0..<cols g]) [0..<rows g])"

definition neighbour_offsets :: "(int \<times> int) list" where
  "neighbour_offsets = [(-1, 0), (0, 1), (1, 0), (0, -1), (-1, 1), (1, 1), (1, -1), (-1, -1)]"

definition neighbours8 :: "cell \<Rightarrow> cell list" where
  "neighbours8 c = map (\<lambda>d. (fst c + fst d, snd c + snd d)) neighbour_offsets"

definition diagonal :: "cell \<Rightarrow> cell \<Rightarrow> bool" where
  "diagonal a b = (fst a \<noteq> fst b \<and> snd a \<noteq> snd b)"

text \<open>
  Modelled from the spec: the step cost of section 4.3, half the sum of the two cells'
  costs, scaled by 1 for a cardinal and by the square root of 2 for a diagonal step. The
  scale is a constant of its own, without a code equation: a square root cannot be
  computed, and the evaluations below never take a diagonal step.
\<close>

definition diagonal_scale :: real where
  "diagonal_scale = sqrt 2"

declare diagonal_scale_def [code del]

definition step_cost :: "cost_grid \<Rightarrow> cell \<Rightarrow> cell \<Rightarrow> real" where
  "step_cost g a b =
     (real (cost_value (cost_at g a)) + real (cost_value (cost_at g b))) / 2
       * (if diagonal a b then diagonal_scale else 1)"

text \<open>
  Modelled from the spec: the state of the wavefront. \<open>integ\<close> is the Integration Field
  under construction, \<open>None\<close> being the unreachable sentinel; \<open>processed\<close> are the cells
  the expansion has already been through.
\<close>

record solver_state =
  integ :: "cell \<Rightarrow> real option"
  processed :: "cell set"

text \<open>Modelled from the spec: the wavefront is seeded at the target cells with integration
  value 0 (section 4.3).\<close>

definition seed :: "cell list \<Rightarrow> solver_state" where
  "seed target_cells =
     \<lparr>integ = (\<lambda>c. if c \<in> set target_cells then Some 0 else None), processed = {}\<rparr>"

text \<open>
  Modelled from the spec: the expansion order (section 4.3). The frontier holds the cells of
  the grid that have a value and are not yet processed; \<open>pick_min\<close> takes one of least
  value, the first in the order of \<open>cells_of\<close> among equals: the discipline of a
  priority queue.
\<close>

definition frontier :: "cost_grid \<Rightarrow> solver_state \<Rightarrow> (cell \<times> real) list" where
  "frontier g st =
     List.map_filter
       (\<lambda>c. if c \<in> processed st then None else map_option (Pair c) (integ st c))
       (cells_of g)"

fun pick_min :: "(cell \<times> real) list \<Rightarrow> (cell \<times> real) option" where
  "pick_min [] = None"
| "pick_min (x # xs) =
     (case pick_min xs of
        None \<Rightarrow> Some x
      | Some y \<Rightarrow> if snd x \<le> snd y then Some x else Some y)"

text \<open>
  Modelled from the spec: one expansion step from the cell \<open>p\<close> of value \<open>v\<close> into its
  neighbour \<open>n\<close> (section 4.3). The step is taken into cells of the grid only, never into
  an \<open>IMPASSABLE\<close> cell, never back into a processed cell, and only when it lowers the
  value of \<open>n\<close>.
\<close>

definition relax :: "cost_grid \<Rightarrow> cell \<Rightarrow> real \<Rightarrow> cell \<Rightarrow> solver_state \<Rightarrow> solver_state" where
  "relax g p v n st =
     (if in_grid g n \<and> passable g n \<and> n \<notin> processed st
         \<and> (case integ st n of None \<Rightarrow> True | Some old \<Rightarrow> v + step_cost g p n < old)
      then st\<lparr>integ := (integ st)(n \<mapsto> v + step_cost g p n)\<rparr>
      else st)"

text \<open>
  Modelled from the spec: processing the cell \<open>p\<close>, visiting its neighbours in the fixed
  order. A step cost needs the costs of both cells, so an \<open>IMPASSABLE\<close> cell (which can
  only be a target cell) is processed without being expanded from.
\<close>

definition expand :: "cost_grid \<Rightarrow> cell \<Rightarrow> real \<Rightarrow> solver_state \<Rightarrow> solver_state" where
  "expand g p v st =
     (let st1 = st\<lparr>processed := insert p (processed st)\<rparr>
      in if passable g p then fold (relax g p v) (neighbours8 p) st1 else st1)"

text \<open>
  Modelled from the spec: the wavefront loop. It ends when the frontier is empty, or when
  the bounded expansion count of section 7 (\<open>ComputationBudgetExceeded\<close>) is used up; it
  then returns the partial field.
\<close>

fun wavefront :: "nat \<Rightarrow> cost_grid \<Rightarrow> solver_state \<Rightarrow> solver_state" where
  "wavefront 0 g st = st"
| "wavefront (Suc budget) g st =
     (case pick_min (frontier g st) of
        None \<Rightarrow> st
      | Some (p, v) \<Rightarrow> wavefront budget g (expand g p v st))"

text \<open>
  Modelled from the spec: the Integration Field that \<open>Solve(grid, target_cells)\<close> produces
  (section 4.3), of the dimensions of the grid. The Flow Field, the other half of the
  result, is derived from this field and is not needed below.
\<close>

definition IntegrationField :: "nat \<Rightarrow> cost_grid \<Rightarrow> cell list \<Rightarrow> cell \<Rightarrow> real option" where
  "IntegrationField budget g target_cells =
     (let st = wavefront budget g (seed target_cells)
      in (\<lambda>c. if in_grid g c then integ st c else None))"

text \<open>
  What the theorem about the wavefront speaks of, and the invariant of its proof.
  \<open>expanded_from g st c v p w\<close>: the cell \<open>c\<close> has its value \<open>v\<close> from an expansion step
  out of the processed cell \<open>p\<close> of value \<open>w\<close>.
\<close>

definition expanded_from ::
    "cost_grid \<Rightarrow> solver_state \<Rightarrow> cell \<Rightarrow> real \<Rightarrow> cell \<Rightarrow> real \<Rightarrow> bool" where
  "expanded_from g st c v p w =
     (p \<in> processed st \<and> in_grid g p \<and> passable g p \<and> c \<in> set (neighbours8 p)
      \<and> in_grid g c \<and> passable g c \<and> integ st p = Some w \<and> v = w + step_cost g p c)"

definition wave_inv :: "cost_grid \<Rightarrow> cell list \<Rightarrow> solver_state \<Rightarrow> bool" where
  "wave_inv g T st =
     ((\<forall>t \<in> set T. integ st t = Some 0)
      \<and> (\<forall>c v. integ st c = Some v \<longrightarrow>
             0 \<le> v \<and> ((c \<in> set T \<and> v = 0) \<or> (\<exists>p w. expanded_from g st c v p w))))"

text \<open>A grid of one row, with the costs 1, 3 and 5.\<close>

definition row3 :: cost_grid where
  "row3 = \<lparr>chunk_id = 0, rows = 1, cols = 3, cells = [[Cost 1, Cost 3, Cost 5]]\<rparr>"


section \<open>Theorems about the camera\<close>

subsection \<open>The clamp\<close>

lemma camera_move_within_bounds_fields:
  "bounds (camera_move_within_bounds M cam) = bounds cam"
  "bounded (camera_move_within_bounds M cam) = bounded cam"
  by (simp_all add: camera_move_within_bounds_def Let_def)

text \<open>
  What the clamp needs of the float arithmetic: the rounded lower bound is not above
  \<^verbatim>\<open>bounds.x\<close> and the rounded upper bound not below \<^verbatim>\<open>bounds.z\<close>. A monotone rounding
  gives both when the width and the height are non-negative and \<^verbatim>\<open>bounds.x\<close> and
  \<^verbatim>\<open>bounds.z\<close> are floats.
\<close>

lemma float_sub_le:
  assumes "mono (float_round M)" and "float_round M a = a" and "0 \<le> b"
  shows "float_sub M a b \<le> a"
proof -
  have "float_round M (a - b) \<le> float_round M a"
    using monoD [OF assms(1), of "a - b" a] assms(3) by simp
  with assms(2) show ?thesis by (simp add: float_sub_def)
qed

lemma float_add_ge:
  assumes "mono (float_round M)" and "float_round M a = a" and "0 \<le> b"
  shows "a \<le> float_add M a b"
proof -
  have "float_round M a \<le> float_round M (a + b)"
    using monoD [OF assms(1), of a "a + b"] assms(3) by simp
  with assms(2) show ?thesis by (simp add: float_add_def)
qed

lemma camera_move_within_bounds_in_bounds:
  assumes "float_sub M (bx (bounds cam)) (bw (bounds cam)) \<le> bx (bounds cam)"
    and "bz (bounds cam) \<le> float_add M (bz (bounds cam)) (bh (bounds cam))"
  shows "camera_pos_in_bounds M (camera_move_within_bounds M cam)"
  using assms
  by (simp add: camera_pos_in_bounds_def camera_move_within_bounds_def Let_def
      MIN_macro_def MAX_macro_def)

lemma clamp_and_assert_within:
  assumes "bounded cam"
    and "float_sub M (bx (bounds cam)) (bw (bounds cam)) \<le> bx (bounds cam)"
    and "bz (bounds cam) \<le> float_add M (bz (bounds cam)) (bh (bounds cam))"
  shows "returns_within M (clamp_and_assert M cam) (bounds cam)"
proof -
  let ?c = "camera_move_within_bounds M cam"
  have inside: "camera_pos_in_bounds M ?c"
    using assms(2,3) by (rule camera_move_within_bounds_in_bounds)
  moreover have "clamp_and_assert M cam = assert_bounds M ?c"
    using assms(1) by (simp add: clamp_and_assert_def)
  ultimately have "clamp_and_assert M cam = Inr ?c"
    using assms(1) by (simp add: assert_bounds_def camera_move_within_bounds_fields)
  with inside show ?thesis
    by (simp add: returns_within_def camera_pos_in_bounds_def camera_move_within_bounds_fields)
qed

lemma init_prev_frame_ts_fields:
  "bounded (init_prev_frame_ts t0 cam) = bounded cam"
  "bounds (init_prev_frame_ts t0 cam) = bounds cam"
  "pos (init_prev_frame_ts t0 cam) = pos cam"
  by (simp_all add: init_prev_frame_ts_def)

lemma clamp_and_assert_pos_update:
  assumes "bounded cam" and "0 \<le> bw (bounds cam)" and "0 \<le> bh (bounds cam)"
    and "mono (float_round M)"
    and "float_round M (bx (bounds cam)) = bx (bounds cam)"
    and "float_round M (bz (bounds cam)) = bz (bounds cam)"
  shows "returns_within M (clamp_and_assert M (init_prev_frame_ts t0 cam\<lparr>pos := p\<rparr>)) (bounds cam)"
proof -
  have "float_sub M (bx (bounds cam)) (bw (bounds cam)) \<le> bx (bounds cam)"
    using assms(4,5,2) by (rule float_sub_le)
  moreover have "bz (bounds cam) \<le> float_add M (bz (bounds cam)) (bh (bounds cam))"
    using assms(4,6,3) by (rule float_add_ge)
  ultimately show ?thesis
    using clamp_and_assert_within [of "init_prev_frame_ts t0 cam\<lparr>pos := p\<rparr>" M] assms(1)
    by (simp add: init_prev_frame_ts_fields)
qed

text \<open>
  C8, as the code has it. Take a bounded camera whose box has non-negative width and
  height, with finite float fields: \<^verbatim>\<open>bounds.x\<close> and \<^verbatim>\<open>bounds.z\<close> are floats (the rounding
  leaves them as they are) and the rounding of the float arithmetic is monotone. Wherever
  the position was before the call, \<^verbatim>\<open>Camera_MoveLeftTick\<close>, \<^verbatim>\<open>Camera_MoveRightTick\<close>,
  \<^verbatim>\<open>Camera_MoveFrontTick\<close> and \<^verbatim>\<open>Camera_MoveBackTick\<close> return (their assertion holds) with a
  position that passes the code's own check \<^verbatim>\<open>camera_pos_in_bounds\<close>:
  \<open>bounds.x - bounds.w \<le> pos.x \<le> bounds.x\<close> and \<open>bounds.z \<le> pos.z \<le> bounds.z + bounds.h\<close>,
  the difference and the sum computed in float arithmetic. So does
  \<^verbatim>\<open>Camera_MoveDirectionTick\<close> for a direction of non-zero magnitude. The theorem holds for
  every math library \<open>M\<close> and all clock readings \<open>t0\<close>, \<open>t1\<close>.
\<close>

theorem move_ticks_within_bounds:
  assumes "bounded cam" and "0 \<le> bw (bounds cam)" and "0 \<le> bh (bounds cam)"
    and "mono (float_round M)"
    and "float_round M (bx (bounds cam)) = bx (bounds cam)"
    and "float_round M (bz (bounds cam)) = bz (bounds cam)"
  shows "returns_within M (Camera_MoveLeftTick M t0 t1 cam) (bounds cam)
       \<and> returns_within M (Camera_MoveRightTick M t0 t1 cam) (bounds cam)
       \<and> returns_within M (Camera_MoveFrontTick M t0 t1 cam) (bounds cam)
       \<and> returns_within M (Camera_MoveBackTick M t0 t1 cam) (bounds cam)
       \<and> (mag dir \<noteq> 0 \<longrightarrow>
            returns_within M (Camera_MoveDirectionTick M t0 t1 cam dir) (bounds cam))"
  using assms
  by (simp add: Camera_MoveLeftTick_def Camera_MoveRightTick_def Camera_MoveFrontTick_def
      Camera_MoveBackTick_def Camera_MoveDirectionTick_def Let_def clamp_and_assert_pos_update)

text \<open>The two roundings of the examples are monotone.\<close>

lemma mono_float_round_example_math: "mono (float_round example_math)"
  by (simp add: example_math_def mono_def)

lemma mono_float_round_spaced_math: "mono (float_round spaced_math)"
proof (rule monoI)
  fix a b :: real
  assume "a \<le> b"
  then have "a / 2 \<le> b / 2" by simp
  then have "\<lfloor>a / 2\<rfloor> \<le> \<lfloor>b / 2\<rfloor>" by (rule floor_mono)
  then show "float_round spaced_math a \<le> float_round spaced_math b"
    by (simp add: spaced_math_def)
qed

text \<open>
  What the calls compute at the far camera. The lower bound of its box is the float
  \<open>16777218 - 1 = 16777216\<close>, the upper bound \<open>0 + 2 = 2\<close>. The clock reads 7, then 9, so
  the camera moves by \<open>2 * speed\<close> from \<open>(5, 0, 5)\<close>, to the left to \<open>(7, 0, 5)\<close> and to the
  front to \<open>(5, 0, 3)\<close>; the clamp puts both positions at \<open>(16777216, 0, 2)\<close>, which is
  below the exact bound 16777217 and passes the code's check.
\<close>

lemma far_camera_bounds:
  "float_sub spaced_math (bx (bounds far_camera)) (bw (bounds far_camera)) = 16777216"
  "float_add spaced_math (bz (bounds far_camera)) (bh (bounds far_camera)) = 2"
  "float_round spaced_math (bx (bounds far_camera)) = bx (bounds far_camera)"
  "float_round spaced_math (bz (bounds far_camera)) = bz (bounds far_camera)"
  by (simp_all add: float_sub_def float_add_def spaced_math_def far_camera_def
      outside_camera_def Camera_New_def)

lemma move_ticks_example:
  "Camera_MoveLeftTick spaced_math 7 9 far_camera
     = Inr (far_camera\<lparr>prev_frame_ts := 7, pos := vec3_of 16777216 0 2\<rparr>)"
  "Camera_MoveFrontTick spaced_math 7 9 far_camera
     = Inr (far_camera\<lparr>prev_frame_ts := 7, pos := vec3_of 16777216 0 2\<rparr>)"
  by (simp_all add: Camera_MoveLeftTick_def Camera_MoveFrontTick_def init_prev_frame_ts_def
      tick_dist_def clamp_and_assert_def assert_bounds_def camera_move_within_bounds_def
      camera_pos_in_bounds_def MIN_macro_def MAX_macro_def float_sub_def float_add_def
      spaced_math_def example_math_def mag_def far_camera_def outside_camera_def
      Camera_New_def vec3_of_def Let_def)

text \<open>
  The theorem at the far camera, whose position \<open>(5, 0, 5)\<close> lies outside its box: all
  five calls return with a position that passes the check.
\<close>

theorem move_ticks_within_bounds_witness:
  "bounded far_camera \<and> 0 \<le> bw (bounds far_camera) \<and> 0 \<le> bh (bounds far_camera)
   \<and> mono (float_round spaced_math)
   \<and> float_round spaced_math (bx (bounds far_camera)) = bx (bounds far_camera)
   \<and> float_round spaced_math (bz (bounds far_camera)) = bz (bounds far_camera)
   \<and> mag (vec3_of 0 0 1) \<noteq> 0
   \<and> returns_within spaced_math (Camera_MoveLeftTick spaced_math 7 9 far_camera) (bounds far_camera)
   \<and> returns_within spaced_math (Camera_MoveRightTick spaced_math 7 9 far_camera) (bounds far_camera)
   \<and> returns_within spaced_math (Camera_MoveFrontTick spaced_math 7 9 far_camera) (bounds far_camera)
   \<and> returns_within spaced_math (Camera_MoveBackTick spaced_math 7 9 far_camera) (bounds far_camera)
   \<and> returns_within spaced_math
        (Camera_MoveDirectionTick spaced_math 7 9 far_camera (vec3_of 0 0 1)) (bounds far_camera)"
proof -
  have box: "bounded far_camera" "0 \<le> bw (bounds far_camera)" "0 \<le> bh (bounds far_camera)"
    by (simp_all add: far_camera_def outside_camera_def Camera_New_def)
  have dir: "mag (vec3_of 0 0 1) \<noteq> 0"
    by (simp add: mag_def vec3_of_def)
  show ?thesis
    using move_ticks_within_bounds
      [OF box mono_float_round_spaced_math far_camera_bounds(3,4),
       of 7 9 "vec3_of 0 0 1"]
      box dir mono_float_round_spaced_math far_camera_bounds(3,4)
    by simp
qed

text \<open>
  C8 as it is stated fails for \<^verbatim>\<open>Camera_MoveDirectionTick\<close>: with a direction of zero
  magnitude the function returns at \<^verbatim>\<open>if(mag == 0.0f) return;\<close>, before the clamp, and a
  position outside the box stays where it was. The box of this camera is \<open>x = 0\<close>,
  \<open>z = 0\<close>, \<open>w = 1\<close>, \<open>h = 1\<close>, whose bounds \<open>-1\<close> and \<open>1\<close> float arithmetic computes exactly.
\<close>

theorem move_direction_zero_stays_outside:
  "bounded outside_camera \<and> 0 \<le> bw (bounds outside_camera) \<and> 0 \<le> bh (bounds outside_camera)
   \<and> Camera_MoveDirectionTick example_math 7 9 outside_camera (vec3_of 0 0 0)
       = Inr (outside_camera\<lparr>prev_frame_ts := 7\<rparr>)
   \<and> \<not> returns_within example_math
         (Camera_MoveDirectionTick example_math 7 9 outside_camera (vec3_of 0 0 0))
         (bounds outside_camera)"
  by (simp add: outside_camera_def Camera_New_def Camera_MoveDirectionTick_def
      init_prev_frame_ts_def mag_def vec3_of_def returns_within_def float_sub_def
      float_add_def example_math_def)

subsection \<open>The pitch\<close>

lemma update_front_up_fields:
  "pitch (update_front_up M cam) = pitch cam"
  "yaw (update_front_up M cam) = yaw cam"
  "sensitivity (update_front_up M cam) = sensitivity cam"
  by (simp_all add: update_front_up_def Let_def)

text \<open>
  C9. \<^verbatim>\<open>Camera_SetPitchAndYaw\<close> stores the pitch it is given, with no clamp. Whatever
  the camera \<open>cam\<close> (so whatever its pitch) and whatever \<open>dx\<close> and \<open>dy\<close>, after
  \<^verbatim>\<open>Camera_ChangeDirection\<close> the pitch lies in \<open>[-89, 89]\<close>, and the yaw is the old yaw
  plus \<open>dx * sensitivity\<close>, not clamped.
\<close>

theorem change_direction_pitch_clamped:
  "pitch (Camera_SetPitchAndYaw M cam0 p yw) = p
   \<and> - 89 \<le> pitch (Camera_ChangeDirection M cam dx dy)
   \<and> pitch (Camera_ChangeDirection M cam dx dy) \<le> 89
   \<and> yaw (Camera_ChangeDirection M cam dx dy) = yaw cam + real_of_int (sint dx) * sensitivity cam"
  by (simp add: Camera_SetPitchAndYaw_def Camera_ChangeDirection_def Let_def
      update_front_up_fields)

text \<open>
  The theorem at a camera whose pitch was set to 400 with sensitivity 2: \<open>dy = 3\<close> gives
  \<open>400 - 6\<close>, clamped to 89; \<open>dy = 300\<close> gives \<open>400 - 600\<close>, clamped to \<open>-89\<close>; the yaw
  becomes \<open>100000 * 2\<close>.
\<close>

theorem change_direction_pitch_clamped_example:
  "pitch steep_camera = 400
   \<and> pitch (Camera_ChangeDirection example_math steep_camera 100000 3) = 89
   \<and> pitch (Camera_ChangeDirection example_math steep_camera 100000 300) = - 89
   \<and> yaw (Camera_ChangeDirection example_math steep_camera 100000 3) = 200000"
  using change_direction_pitch_clamped [where M = example_math and cam = steep_camera and dx = 100000 and dy = 3]
    change_direction_pitch_clamped [where M = example_math and cam = steep_camera and dx = 100000 and dy = 300]
  unfolding steep_camera_def
  by (simp add: Camera_SetPitchAndYaw_def Camera_ChangeDirection_def Let_def
      update_front_up_fields Camera_SetSens_def Camera_New_def)

subsection \<open>A direction of zero magnitude\<close>

text \<open>The magnitude is zero exactly for the zero vector.\<close>

lemma mag_zero_iff: "mag dir = 0 \<longleftrightarrow> vx dir = 0 \<and> vy dir = 0 \<and> vz dir = 0"
proof -
  have "mag dir = 0 \<longleftrightarrow> (vx dir)\<^sup>2 + (vy dir)\<^sup>2 + (vz dir)\<^sup>2 = 0"
    by (simp add: mag_def)
  also have "\<dots> \<longleftrightarrow> vx dir = 0 \<and> vy dir = 0 \<and> vz dir = 0"
    by (metis sum_power2_eq_zero_iff add_nonneg_eq_0_iff zero_le_power2 zero_eq_power2
        add_nonneg_nonneg)
  finally show ?thesis .
qed

text \<open>
  C10. For a direction of zero magnitude \<^verbatim>\<open>Camera_MoveDirectionTick\<close> returns the camera
  it was given with one field touched: \<^verbatim>\<open>prev_frame_ts\<close> is the clock reading \<open>t0\<close> when
  it was zero, and is unchanged otherwise. Every other field (\<^verbatim>\<open>pos\<close>, \<^verbatim>\<open>front\<close>, \<^verbatim>\<open>up\<close>,
  \<^verbatim>\<open>pitch\<close>, \<^verbatim>\<open>yaw\<close>, \<^verbatim>\<open>speed\<close>, \<^verbatim>\<open>sensitivity\<close>, \<^verbatim>\<open>bounded\<close>, \<^verbatim>\<open>bounds\<close>) is as before.
\<close>

theorem move_direction_zero_frame:
  assumes "mag dir = 0"
  shows "Camera_MoveDirectionTick M t0 t1 cam dir
           = Inr (cam\<lparr>prev_frame_ts := (if prev_frame_ts cam = 0 then t0 else prev_frame_ts cam)\<rparr>)"
  using assms by (simp add: Camera_MoveDirectionTick_def init_prev_frame_ts_def)

text \<open>
  The theorem at the zero vector, for a camera whose \<^verbatim>\<open>prev_frame_ts\<close> is zero (it becomes
  the reading 7) and for one whose \<^verbatim>\<open>prev_frame_ts\<close> is 3 (it stays 3).
\<close>

theorem move_direction_zero_frame_witness:
  "mag (vec3_of 0 0 0) = 0
   \<and> Camera_MoveDirectionTick example_math 7 9 outside_camera (vec3_of 0 0 0)
       = Inr (outside_camera\<lparr>prev_frame_ts := 7\<rparr>)
   \<and> Camera_MoveDirectionTick example_math 7 9 (outside_camera\<lparr>prev_frame_ts := 3\<rparr>) (vec3_of 0 0 0)
       = Inr (outside_camera\<lparr>prev_frame_ts := 3\<rparr>)"
  using move_direction_zero_frame [of "vec3_of 0 0 0" example_math 7 9 outside_camera]
    move_direction_zero_frame [of "vec3_of 0 0 0" example_math 7 9 "outside_camera\<lparr>prev_frame_ts := 3\<rparr>"]
  by (simp add: mag_def vec3_of_def outside_camera_def Camera_New_def)


section \<open>Theorems about the portals\<close>

lemma maximal_run_same_hi:
  assumes "maximal_run bs lo hi" and "maximal_run bs lo' hi"
  shows "lo = lo'"
proof (rule ccontr)
  assume "lo \<noteq> lo'"
  then consider "lo < lo'" | "lo' < lo" by linarith
  then show False
  proof cases
    case 1
    then have "lo \<le> lo' - 1" "lo' - 1 \<le> hi" "lo' \<noteq> 0"
      using assms by (auto simp: maximal_run_def)
    then show False using assms by (auto simp: maximal_run_def)
  next
    case 2
    then have "lo' \<le> lo - 1" "lo - 1 \<le> hi" "lo \<noteq> 0"
      using assms by (auto simp: maximal_run_def)
    then show False using assms by (auto simp: maximal_run_def)
  qed
qed

lemma scan_runs_lower:
  "(lo, hi) \<in> set (scan_runs ps i st) \<Longrightarrow> (case st of None \<Rightarrow> i \<le> lo | Some s \<Rightarrow> lo = s \<or> i < lo)"
  by (induction ps i st rule: scan_runs.induct) (fastforce split: if_splits)+

lemma distinct_scan_runs:
  "(case st of None \<Rightarrow> True | Some s \<Rightarrow> s < i) \<Longrightarrow> distinct (scan_runs ps i st)"
proof (induction ps i st rule: scan_runs.induct)
  case (4 p ps i s)
  have "(s, i - 1) \<notin> set (scan_runs ps (Suc i) None)"
    using scan_runs_lower [of s "i - 1" ps "Suc i" None] 4 by auto
  with 4 show ?case by auto
qed auto

lemma scan_runs_set:
  assumes "scan_state_ok pre st" and "length pre = i"
  shows "set (scan_runs ps i st) = runs_from (pre @ ps) i st"
  using assms
proof (induction ps i st arbitrary: pre rule: scan_runs.induct)
  case (1 i)
  then show ?case by (auto simp: runs_from_def maximal_run_def)
next
  case (2 i s)
  from 2 have s: "s < i" "\<And>j. s \<le> j \<Longrightarrow> j < i \<Longrightarrow> pre ! j" "s = 0 \<or> \<not> pre ! (s - 1)"
    by (auto simp: scan_state_ok_def)
  have "j < i" if "j \<le> i - 1" for j using that s(1) by linarith
  with s 2 have run: "maximal_run pre s (i - 1)"
    by (auto simp: maximal_run_def)
  have uniq: "lo = s \<and> hi = i - 1" if "maximal_run pre lo hi" "i \<le> Suc hi" for lo hi
  proof -
    from that 2 have "hi = i - 1" by (auto simp: maximal_run_def)
    with that run show ?thesis using maximal_run_same_hi by blast
  qed
  have "runs_from pre i (Some s) = {(s, i - 1)}"
  proof (intro equalityI subsetI)
    fix x assume "x \<in> runs_from pre i (Some s)"
    then obtain lo hi where "x = (lo, hi)" "maximal_run pre lo hi" "i \<le> Suc hi"
      by (auto simp: runs_from_def)
    with uniq [of lo hi] show "x \<in> {(s, i - 1)}" by simp
  next
    fix x assume "x \<in> {(s, i - 1)}"
    with run s(1) show "x \<in> runs_from pre i (Some s)" by (simp add: runs_from_def)
  qed
  then show ?case by simp
next
  case (3 p ps i)
  let ?bs = "pre @ p # ps"
  have at_i: "?bs ! i = p" using "3.prems" by (simp add: nth_append)
  have len_pre: "length pre = i" using "3.prems" by simp
  have before_pre: "i = 0 \<or> \<not> pre ! (i - 1)"
    using "3.prems" by (cases pre rule: rev_cases) (auto simp: scan_state_ok_def)
  then have before: "i = 0 \<or> \<not> ?bs ! (i - 1)"
    using len_pre by (cases "i = 0") (auto simp: nth_append)
  show ?case
  proof (cases p)
    case True
    have "(pre @ [p]) ! j" if "i \<le> j" "j < length (pre @ [p])" for j
    proof -
      from that len_pre have "j = i" by simp
      with True len_pre show ?thesis by (simp add: nth_append)
    qed
    moreover have "i = 0 \<or> \<not> (pre @ [p]) ! (i - 1)"
      using before_pre len_pre by (cases "i = 0") (auto simp: nth_append)
    ultimately have ok: "scan_state_ok (pre @ [p]) (Some i)"
      using len_pre by (simp add: scan_state_ok_def)
    have "set (scan_runs ps (Suc i) (Some i)) = runs_from ((pre @ [p]) @ ps) (Suc i) (Some i)"
      using "3.prems" True ok by (intro "3.IH"(1)) auto
    moreover have "runs_from ?bs (Suc i) (Some i) = runs_from ?bs i None"
    proof -
      have "i \<le> lo" if "maximal_run ?bs lo hi" "i \<le> hi" for lo hi
      proof (rule ccontr)
        assume "\<not> i \<le> lo"
        then have "lo \<le> i - 1" "i - 1 \<le> hi" "i \<noteq> 0" using that by auto
        then have "?bs ! (i - 1)" using that by (auto simp: maximal_run_def)
        with before \<open>i \<noteq> 0\<close> show False by simp
      qed
      moreover have "i \<le> hi" if "maximal_run ?bs lo hi" "i \<le> lo" for lo hi
        using that by (auto simp: maximal_run_def)
      ultimately show ?thesis by (auto simp: runs_from_def)
    qed
    ultimately show ?thesis using True by simp
  next
    case False
    have ok: "scan_state_ok (pre @ [p]) None"
      using False by (simp add: scan_state_ok_def)
    have "set (scan_runs ps (Suc i) None) = runs_from ((pre @ [p]) @ ps) (Suc i) None"
      using "3.prems" False ok by (intro "3.IH"(2)) auto
    moreover have "runs_from ?bs (Suc i) None = runs_from ?bs i None"
    proof -
      have "Suc i \<le> lo" if "maximal_run ?bs lo hi" "i \<le> lo" for lo hi
      proof (rule ccontr)
        assume "\<not> Suc i \<le> lo"
        then have "lo = i" using that by simp
        then have "?bs ! i" using that by (auto simp: maximal_run_def)
        with at_i False show False by simp
      qed
      then show ?thesis by (auto simp: runs_from_def)
    qed
    ultimately show ?thesis using False by simp
  qed
next
  case (4 p ps i s)
  let ?bs = "pre @ p # ps"
  have at_i: "?bs ! i = p" using "4.prems" by (simp add: nth_append)
  have len_pre: "length pre = i" using "4.prems" by simp
  from "4.prems" have s0: "s < i" "\<And>j. s \<le> j \<Longrightarrow> j < i \<Longrightarrow> pre ! j" "s = 0 \<or> \<not> pre ! (s - 1)"
    by (auto simp: scan_state_ok_def)
  have s: "s < i" "\<And>j. s \<le> j \<Longrightarrow> j < i \<Longrightarrow> ?bs ! j" "s = 0 \<or> \<not> ?bs ! (s - 1)"
  proof -
    show "s < i" by (rule s0(1))
    show "?bs ! j" if "s \<le> j" "j < i" for j
      using that s0(2) [of j] len_pre by (simp add: nth_append)
    show "s = 0 \<or> \<not> ?bs ! (s - 1)"
      using s0(1,3) len_pre by (cases "s = 0") (auto simp: nth_append)
  qed
  have len: "i < length ?bs" using "4.prems" by simp
  show ?case
  proof (cases p)
    case True
    have "(pre @ [p]) ! j" if "s \<le> j" "j < length (pre @ [p])" for j
    proof (cases "j = i")
      case True
      with \<open>p\<close> len_pre show ?thesis by (simp add: nth_append)
    next
      case False
      with that len_pre have "j < i" by simp
      with that s0(2) [of j] len_pre show ?thesis by (simp add: nth_append)
    qed
    moreover have "s = 0 \<or> \<not> (pre @ [p]) ! (s - 1)"
      using s0(1,3) len_pre by (cases "s = 0") (auto simp: nth_append)
    ultimately have ok: "scan_state_ok (pre @ [p]) (Some s)"
      using len_pre s0(1) by (simp add: scan_state_ok_def)
    have "set (scan_runs ps (Suc i) (Some s)) = runs_from ((pre @ [p]) @ ps) (Suc i) (Some s)"
      using "4.prems" True ok by (intro "4.IH"(1)) auto
    moreover have "runs_from ?bs (Suc i) (Some s) = runs_from ?bs i (Some s)"
    proof -
      have "Suc i \<le> Suc hi" if "maximal_run ?bs lo hi" "i \<le> Suc hi" for lo hi
      proof (rule ccontr)
        assume "\<not> Suc i \<le> Suc hi"
        then have "Suc hi = i" using that by simp
        then have "\<not> ?bs ! i" using that len by (auto simp: maximal_run_def)
        with at_i True show False by simp
      qed
      then show ?thesis by (auto simp: runs_from_def)
    qed
    ultimately show ?thesis using True by simp
  next
    case False
    have ok: "scan_state_ok (pre @ [p]) None"
      using False by (simp add: scan_state_ok_def)
    have "set (scan_runs ps (Suc i) None) = runs_from ((pre @ [p]) @ ps) (Suc i) None"
      using "4.prems" False ok by (intro "4.IH"(2)) auto
    moreover have "runs_from ?bs i (Some s) = insert (s, i - 1) (runs_from ?bs (Suc i) None)"
    proof -
      have "j < i" if "j \<le> i - 1" for j using that s(1) by linarith
      with s len at_i False have run: "maximal_run ?bs s (i - 1)"
        by (auto simp: maximal_run_def)
      have split: "(lo = s \<and> hi = i - 1) \<or> Suc i \<le> lo"
        if r: "maximal_run ?bs lo hi" and "i \<le> Suc hi" for lo hi
      proof (cases "hi = i - 1")
        case True
        with r run show ?thesis using maximal_run_same_hi by blast
      next
        case False
        with that s(1) have "i \<le> hi" by linarith
        have "\<not> (lo \<le> i)"
        proof
          assume "lo \<le> i"
          with \<open>i \<le> hi\<close> r have "?bs ! i" by (auto simp: maximal_run_def)
          with at_i \<open>\<not> p\<close> show False by simp
        qed
        then show ?thesis by simp
      qed
      have later: "i \<le> Suc hi" if "maximal_run ?bs lo hi" "Suc i \<le> lo" for lo hi
        using that by (auto simp: maximal_run_def)
      show ?thesis
      proof (intro equalityI subsetI)
        fix x assume "x \<in> runs_from ?bs i (Some s)"
        then obtain lo hi where x: "x = (lo, hi)" "maximal_run ?bs lo hi" "i \<le> Suc hi"
          by (auto simp: runs_from_def)
        with split [of lo hi] show "x \<in> insert (s, i - 1) (runs_from ?bs (Suc i) None)"
          by (auto simp: runs_from_def)
      next
        fix x assume "x \<in> insert (s, i - 1) (runs_from ?bs (Suc i) None)"
        then consider "x = (s, i - 1)"
          | lo hi where "x = (lo, hi)" "maximal_run ?bs lo hi" "Suc i \<le> lo"
          by (auto simp: runs_from_def)
        then show "x \<in> runs_from ?bs i (Some s)"
        proof cases
          case 1
          with run s(1) show ?thesis by (simp add: runs_from_def)
        next
          case 2
          with later [of lo hi] show ?thesis by (simp add: runs_from_def)
        qed
      qed
    qed
    ultimately show ?thesis using False by simp
  qed
qed

lemma scan_runs_maximal_runs:
  "set (scan_runs bs 0 None) = {(lo, hi). maximal_run bs lo hi}"
  using scan_runs_set [of "[]" None 0 bs] by (simp add: scan_state_ok_def runs_from_def)


lemma portal_range_make_portal: "portal_range (make_portal A B boundary r) = r"
  by (simp add: portal_range_def make_portal_def)

lemma map_portal_range_BuildPortals:
  "map portal_range (BuildPortals A B boundary) = scan_runs (both_passable A B boundary) 0 None"
  by (simp add: BuildPortals_def comp_def portal_range_make_portal)

text \<open>
  C5. For every two chunks and every shared boundary of theirs, \<open>BuildPortals\<close> returns
  exactly one portal per maximal contiguous run of boundary positions that are passable
  on both sides: the boundary cell ranges of the portals are pairwise different, they are
  exactly the maximal runs, and there are as many portals as maximal runs.
\<close>

theorem BuildPortals_one_portal_per_run:
  "distinct (map portal_range (BuildPortals A B boundary))
   \<and> set (map portal_range (BuildPortals A B boundary))
       = {(lo, hi). maximal_run (both_passable A B boundary) lo hi}
   \<and> length (BuildPortals A B boundary)
       = card {(lo, hi). maximal_run (both_passable A B boundary) lo hi}"
proof -
  let ?rs = "scan_runs (both_passable A B boundary) 0 None"
  have d: "distinct ?rs" by (rule distinct_scan_runs) simp
  have s: "set ?rs = {(lo, hi). maximal_run (both_passable A B boundary) lo hi}"
    by (rule scan_runs_maximal_runs)
  have "length (BuildPortals A B boundary) = length ?rs"
    by (simp add: BuildPortals_def)
  also have "\<dots> = card (set ?rs)" using d by (simp add: distinct_card)
  finally show ?thesis using d s by (simp add: map_portal_range_BuildPortals)
qed

text \<open>The scenario, evaluated: the boundary, its passable positions and the portals.\<close>

lemma east_boundary_example:
  "east_boundary chunk_west chunk_east
     = [((0, 3), (0, 0)), ((1, 3), (1, 0)), ((2, 3), (2, 0)), ((3, 3), (3, 0))]"
  by (simp add: east_boundary_def chunk_west_def chunk_east_def upt_rec)

lemma both_passable_example:
  "both_passable chunk_west chunk_east (east_boundary chunk_west chunk_east)
     = [True, False, True, True]"
  by code_simp

lemma BuildPortals_example:
  "BuildPortals chunk_west chunk_east (east_boundary chunk_west chunk_east)
     = [\<lparr>endpoint_a = 0, endpoint_b = 1, first_cell = 0, last_cell = 0, crossing_cost = 1\<rparr>,
        \<lparr>endpoint_a = 0, endpoint_b = 1, first_cell = 2, last_cell = 3, crossing_cost = 2\<rparr>]"
  by code_simp

text \<open>
  The theorem at the scenario of two adjacent 4x4 chunks whose boundary has two separate
  passable runs, of length 1 (row 0) and of length 2 (rows 2 and 3): \<open>BuildPortals\<close>
  yields exactly 2 portals, one per run.
\<close>

theorem BuildPortals_two_runs_two_portals:
  "map portal_range (BuildPortals chunk_west chunk_east (east_boundary chunk_west chunk_east))
     = [(0, 0), (2, 3)]
   \<and> length (BuildPortals chunk_west chunk_east (east_boundary chunk_west chunk_east)) = 2
   \<and> {(lo, hi). maximal_run
          (both_passable chunk_west chunk_east (east_boundary chunk_west chunk_east)) lo hi}
       = {(0, 0), (2, 3)}
   \<and> card {(lo, hi). maximal_run
          (both_passable chunk_west chunk_east (east_boundary chunk_west chunk_east)) lo hi} = 2"
  using BuildPortals_one_portal_per_run
    [of chunk_west chunk_east "east_boundary chunk_west chunk_east"]
  by (simp add: BuildPortals_example portal_range_def)


section \<open>Theorems about the wavefront\<close>

subsection \<open>The invariant of the wavefront\<close>

text \<open>
  Every target cell keeps the value 0; every value is non-negative; and every cell that
  has a value is a target cell or has its value from an expansion step out of a processed
  cell. The invariant holds of the seeded state and is kept by every step of the loop.
\<close>

lemma wave_inv_target: "wave_inv g T st \<Longrightarrow> t \<in> set T \<Longrightarrow> integ st t = Some 0"
  unfolding wave_inv_def by blast

lemma wave_inv_nonneg: "wave_inv g T st \<Longrightarrow> integ st c = Some v \<Longrightarrow> 0 \<le> v"
  unfolding wave_inv_def by blast

lemma wave_inv_origin:
  "wave_inv g T st \<Longrightarrow> integ st c = Some v \<Longrightarrow>
     (c \<in> set T \<and> v = 0) \<or> (\<exists>p w. expanded_from g st c v p w)"
  unfolding wave_inv_def by blast

lemma wave_invI:
  assumes "\<And>t. t \<in> set T \<Longrightarrow> integ st t = Some 0"
    and "\<And>c v. integ st c = Some v \<Longrightarrow> 0 \<le> v"
    and "\<And>c v. integ st c = Some v \<Longrightarrow>
           (c \<in> set T \<and> v = 0) \<or> (\<exists>p w. expanded_from g st c v p w)"
  shows "wave_inv g T st"
  unfolding wave_inv_def using assms by blast

lemma step_cost_nonneg: "0 \<le> step_cost g a b"
  by (simp add: step_cost_def diagonal_scale_def)

lemma wave_inv_seed: "wave_inv g T (seed T)"
  by (rule wave_invI) (simp_all add: seed_def split: if_splits)

lemma processed_relax: "processed (relax g p v n st) = processed st"
  by (simp add: relax_def)

lemma integ_relax_processed: "c \<in> processed st \<Longrightarrow> integ (relax g p v n st) c = integ st c"
  by (auto simp: relax_def)

lemma integ_relax_disj:
  "integ (relax g p v n st) c = integ st c
   \<or> (c = n \<and> in_grid g n \<and> passable g n \<and> n \<notin> processed st
       \<and> integ (relax g p v n st) c = Some (v + step_cost g p n)
       \<and> (\<forall>old. integ st n = Some old \<longrightarrow> v + step_cost g p n < old))"
  by (cases "integ st n") (simp_all add: relax_def)

lemma integ_relax_cases:
  obtains (same) "integ (relax g p v n st) c = integ st c"
  | (new) "c = n" "in_grid g n" "passable g n" "n \<notin> processed st"
      "integ (relax g p v n st) c = Some (v + step_cost g p n)"
      "\<And>old. integ st n = Some old \<Longrightarrow> v + step_cost g p n < old"
  using integ_relax_disj [of g p v n st c] by blast

lemma expanded_from_relax:
  "expanded_from g st c u q w \<Longrightarrow> expanded_from g (relax g p v n st) c u q w"
  by (simp add: expanded_from_def processed_relax integ_relax_processed)

lemma wave_inv_relax:
  assumes inv: "wave_inv g T st"
    and p: "p \<in> processed st" "in_grid g p" "passable g p" "integ st p = Some v"
    and n: "n \<in> set (neighbours8 p)"
  shows "wave_inv g T (relax g p v n st)"
proof (rule wave_invI)
  let ?st = "relax g p v n st"
  have v0: "0 \<le> v" using inv p(4) by (rule wave_inv_nonneg)
  show "integ ?st t = Some 0" if "t \<in> set T" for t
  proof (cases rule: integ_relax_cases [of g p v n st t])
    case same
    with inv that show ?thesis by (simp add: wave_inv_target)
  next
    case new
    from inv that have "integ st t = Some 0" by (rule wave_inv_target)
    with new have "v + step_cost g p n < 0" by simp
    with v0 step_cost_nonneg [of g p n] show ?thesis by linarith
  qed
  show "0 \<le> u" if "integ ?st c = Some u" for c u
  proof (cases rule: integ_relax_cases [of g p v n st c])
    case same
    with inv that show ?thesis by (simp add: wave_inv_nonneg)
  next
    case new
    with that have "u = v + step_cost g p n" by simp
    with v0 step_cost_nonneg [of g p n] show ?thesis by linarith
  qed
  show "(c \<in> set T \<and> u = 0) \<or> (\<exists>q w. expanded_from g ?st c u q w)"
    if "integ ?st c = Some u" for c u
  proof (cases rule: integ_relax_cases [of g p v n st c])
    case same
    with that have "integ st c = Some u" by simp
    with inv have "(c \<in> set T \<and> u = 0) \<or> (\<exists>q w. expanded_from g st c u q w)"
      by (rule wave_inv_origin)
    then show ?thesis using expanded_from_relax by blast
  next
    case new
    with that have "u = v + step_cost g p c" by simp
    moreover have "integ ?st p = Some v" using p by (simp add: integ_relax_processed)
    ultimately have "expanded_from g ?st c u p v"
      using new p n by (simp add: expanded_from_def processed_relax)
    then show ?thesis by blast
  qed
qed

lemma wave_inv_fold_relax:
  assumes "wave_inv g T st"
    and "p \<in> processed st" "in_grid g p" "passable g p" "integ st p = Some v"
    and "set ns \<subseteq> set (neighbours8 p)"
  shows "wave_inv g T (fold (relax g p v) ns st)"
  using assms
proof (induction ns arbitrary: st)
  case Nil
  then show ?case by simp
next
  case (Cons n ns)
  have "wave_inv g T (relax g p v n st)"
    using Cons.prems by (intro wave_inv_relax) auto
  moreover have "p \<in> processed (relax g p v n st)"
    using Cons.prems by (simp add: processed_relax)
  moreover have "integ (relax g p v n st) p = Some v"
    using Cons.prems by (simp add: integ_relax_processed)
  ultimately show ?case using Cons.prems by (simp add: Cons.IH)
qed

lemma in_grid_cells_of: "c \<in> set (cells_of g) \<Longrightarrow> in_grid g c"
  by (auto simp: cells_of_def in_grid_def)

lemma frontier_member:
  assumes "(p, v) \<in> set (frontier g st)"
  shows "in_grid g p \<and> p \<notin> processed st \<and> integ st p = Some v"
  using assms
  by (auto simp: frontier_def List.map_filter_def in_grid_cells_of split: if_splits)

lemma pick_min_member: "pick_min xs = Some x \<Longrightarrow> x \<in> set xs"
  by (induction xs arbitrary: x) (auto split: option.splits if_splits)

lemma wave_inv_close:
  assumes "wave_inv g T st"
  shows "wave_inv g T (st\<lparr>processed := insert p (processed st)\<rparr>)"
proof (rule wave_invI)
  let ?st = "st\<lparr>processed := insert p (processed st)\<rparr>"
  show "integ ?st t = Some 0" if "t \<in> set T" for t
    using assms that by (simp add: wave_inv_target)
  show "0 \<le> v" if "integ ?st c = Some v" for c v
    using assms that wave_inv_nonneg [of g T st c v] by simp
  show "(c \<in> set T \<and> v = 0) \<or> (\<exists>q w. expanded_from g ?st c v q w)"
    if "integ ?st c = Some v" for c v
  proof -
    from that have "integ st c = Some v" by simp
    with assms have "(c \<in> set T \<and> v = 0) \<or> (\<exists>q w. expanded_from g st c v q w)"
      by (rule wave_inv_origin)
    moreover have "expanded_from g ?st c v q w" if "expanded_from g st c v q w" for q w
      using that by (simp add: expanded_from_def)
    ultimately show ?thesis by blast
  qed
qed

lemma wave_inv_expand:
  assumes inv: "wave_inv g T st" and "(p, v) \<in> set (frontier g st)"
  shows "wave_inv g T (expand g p v st)"
proof -
  let ?st1 = "st\<lparr>processed := insert p (processed st)\<rparr>"
  from assms(2) have p: "in_grid g p" "integ st p = Some v"
    using frontier_member by blast+
  have inv1: "wave_inv g T ?st1" using inv by (rule wave_inv_close)
  show ?thesis
  proof (cases "passable g p")
    case True
    have "wave_inv g T (fold (relax g p v) (neighbours8 p) ?st1)"
      using inv1 p True by (intro wave_inv_fold_relax) simp_all
    with True show ?thesis by (simp add: expand_def)
  next
    case False
    with inv1 show ?thesis by (simp add: expand_def)
  qed
qed

lemma wave_inv_wavefront:
  "wave_inv g T st \<Longrightarrow> wave_inv g T (wavefront budget g st)"
proof (induction budget arbitrary: st)
  case 0
  then show ?case by simp
next
  case (Suc budget)
  show ?case
  proof (cases "pick_min (frontier g st)")
    case None
    with Suc.prems show ?thesis by simp
  next
    case (Some x)
    obtain p v where x: "x = (p, v)" by (cases x)
    with Some have "(p, v) \<in> set (frontier g st)" by (simp add: pick_min_member)
    with Suc.prems have "wave_inv g T (expand g p v st)" by (rule wave_inv_expand)
    then have "wave_inv g T (wavefront budget g (expand g p v st))" by (rule Suc.IH)
    with Some x show ?thesis by simp
  qed
qed

subsection \<open>Monotonicity\<close>

lemma neighbours8_pair:
  "neighbours8 (a, b) =
     [(a - 1, b), (a, b + 1), (a + 1, b), (a, b - 1),
      (a - 1, b + 1), (a + 1, b + 1), (a + 1, b - 1), (a - 1, b - 1)]"
  by (simp add: neighbours8_def neighbour_offsets_def)

lemma neighbours8_sym: "c \<in> set (neighbours8 p) \<Longrightarrow> p \<in> set (neighbours8 c)"
proof -
  obtain a b where p: "p = (a, b)" by (cases p)
  assume "c \<in> set (neighbours8 p)"
  then have "c = (a - 1, b) \<or> c = (a, b + 1) \<or> c = (a + 1, b) \<or> c = (a, b - 1)
      \<or> c = (a - 1, b + 1) \<or> c = (a + 1, b + 1) \<or> c = (a + 1, b - 1) \<or> c = (a - 1, b - 1)"
    by (simp add: p neighbours8_pair)
  then show ?thesis
    by (elim disjE) (simp_all add: p neighbours8_pair)
qed

text \<open>
  C2. In the Integration Field that \<open>Solve\<close> produces, for every grid, every list of
  target cells and every expansion budget: a cell \<open>c\<close> that was reached (it has a value
  \<open>v\<close>) and is not a target cell has a passable neighbour \<open>p\<close>, the cell it was expanded
  from, whose value \<open>w\<close> is not greater: \<open>v\<close> is \<open>w\<close> plus the step cost from \<open>p\<close> to \<open>c\<close>.
  So the values do not decrease along an expansion step outward from the target, and the
  value of \<open>c\<close> is not smaller than the least value among its passable neighbours. Every
  value is at least 0, the value of the target cells.
\<close>

theorem IntegrationField_monotone:
  assumes "IntegrationField budget g T c = Some v" and "c \<notin> set T"
  shows "0 \<le> v
     \<and> (\<exists>p w. p \<in> set (neighbours8 c) \<and> passable g p
            \<and> IntegrationField budget g T p = Some w \<and> v = w + step_cost g p c \<and> w \<le> v)
     \<and> Min {w. \<exists>p \<in> set (neighbours8 c). passable g p \<and> IntegrationField budget g T p = Some w}
         \<le> v"
proof -
  let ?st = "wavefront budget g (seed T)"
  let ?F = "IntegrationField budget g T"
  have inv: "wave_inv g T ?st" by (intro wave_inv_wavefront wave_inv_seed)
  from assms(1) have c: "integ ?st c = Some v"
    by (simp add: IntegrationField_def Let_def split: if_splits)
  from inv c have v0: "0 \<le> v" by (rule wave_inv_nonneg)
  from wave_inv_origin [OF inv c] assms(2) obtain p w where "expanded_from g ?st c v p w"
    by blast
  then have p: "in_grid g p" "passable g p" "c \<in> set (neighbours8 p)"
    "integ ?st p = Some w" "v = w + step_cost g p c"
    by (simp_all add: expanded_from_def)
  have Fp: "?F p = Some w" using p by (simp add: IntegrationField_def Let_def)
  have nb: "p \<in> set (neighbours8 c)" using p(3) by (rule neighbours8_sym)
  have le: "w \<le> v" using p(5) step_cost_nonneg [of g p c] by linarith
  let ?W = "{w. \<exists>p \<in> set (neighbours8 c). passable g p \<and> ?F p = Some w}"
  have "?W \<subseteq> (\<lambda>p. the (?F p)) ` set (neighbours8 c)" by force
  then have "finite ?W" by (rule finite_surj [rotated]) simp
  moreover have "w \<in> ?W" using nb p(2) Fp by blast
  ultimately have "Min ?W \<le> w" by (rule Min_le)
  with le have "Min ?W \<le> v" by linarith
  with v0 nb p Fp le show ?thesis by blast
qed


text \<open>The field of the one-row grid with costs 1, 3, 5 and the target cell (0, 0):
  0, then \<open>(1 + 3) / 2 = 2\<close>, then \<open>2 + (3 + 5) / 2 = 6\<close>.\<close>

lemma row3_field:
  "IntegrationField 3 row3 [(0, 0)] (0, 0) = Some 0"
  "IntegrationField 3 row3 [(0, 0)] (0, 1) = Some 2"
  "IntegrationField 3 row3 [(0, 0)] (0, 2) = Some 6"
  by code_simp+

text \<open>
  The theorem at the cell (0, 2) of that grid: its value 6 comes from its neighbour
  (0, 1), whose value is 2.
\<close>

theorem IntegrationField_monotone_witness:
  "IntegrationField 3 row3 [(0, 0)] (0, 2) = Some 6 \<and> (0, 2) \<notin> set [(0, 0) :: cell]
   \<and> (\<exists>p w. p \<in> set (neighbours8 (0, 2)) \<and> passable row3 p
          \<and> IntegrationField 3 row3 [(0, 0)] p = Some w \<and> 6 = w + step_cost row3 p (0, 2)
          \<and> w \<le> 6)
   \<and> Min {w. \<exists>p \<in> set (neighbours8 (0, 2)).
             passable row3 p \<and> IntegrationField 3 row3 [(0, 0)] p = Some w} \<le> 6"
  using IntegrationField_monotone [of 3 row3 "[(0, 0)]" "(0, 2)" 6]
  by (simp add: row3_field)


end
